theory Spec2Isabelle
  imports Main
begin

text \<open>
  The data registry of pyMKM (\<^verbatim>\<open>pymkm/io/data_registry.py\<close>): locating a default \<^verbatim>\<open>.txt\<close>
  file, enumerating the valid sources, listing the files of a source and loading the
  lookup table of the elements. The four functions are embedded as functions of an
  environment that holds what they read: the import system, a POSIX file system without
  symbolic links, the working directory and the path of the module. An exception is a
  value of the left summand of the result.
\<close>

section \<open>Strings\<close>

text \<open>Python's \<^verbatim>\<open>s.split(c)\<close> for a one-character separator: the pieces between the
  separators, always at least one piece.\<close>

fun str_split :: "char \<Rightarrow> string \<Rightarrow> string list" where
  "str_split c [] = [[]]"
| "str_split c (x # xs) =
     (if x = c then [] # str_split c xs
      else (case str_split c xs of [] \<Rightarrow> [[x]] | w # ws \<Rightarrow> (x # w) # ws))"

text \<open>Python's \<^verbatim>\<open>sep.join(xs)\<close>.\<close>

fun str_join :: "string \<Rightarrow> string list \<Rightarrow> string" where
  "str_join sep [] = []"
| "str_join sep [x] = x"
| "str_join sep (x # y # ys) = x @ sep @ str_join sep (y # ys)"

text \<open>The characters below code point 256 that \<^verbatim>\<open>str.isspace\<close> accepts; \<^verbatim>\<open>str.strip()\<close>
  removes them from both ends.\<close>

definition is_space :: "char \<Rightarrow> bool" where
  "is_space c = (c \<in> set [CHR 0x09, CHR 0x0A, CHR 0x0B, CHR 0x0C, CHR 0x0D, CHR 0x1C,
     CHR 0x1D, CHR 0x1E, CHR 0x1F, CHR 0x20, CHR 0x85, CHR 0xA0])"

definition str_strip :: "string \<Rightarrow> string" where
  "str_strip s = rev (dropWhile is_space (rev (dropWhile is_space s)))"

definition quoted :: "string \<Rightarrow> string" where
  "quoted s = CHR 0x27 # s @ [CHR 0x27]"

text \<open>\<^verbatim>\<open>f.readlines()\<close> on the text of a file: the lines, each keeping its newline.\<close>

fun readlines :: "string \<Rightarrow> string list" where
  "readlines [] = []"
| "readlines (c # cs) =
     (if c = CHR 0x0A then [c] # readlines cs
      else (case readlines cs of [] \<Rightarrow> [[c]] | l # ls \<Rightarrow> (c # l) # ls))"

section \<open>\<^verbatim>\<open>os.path\<close> on POSIX\<close>

definition os_path_isabs :: "string \<Rightarrow> bool" where
  "os_path_isabs p = (p \<noteq> [] \<and> hd p = CHR ''/'')"

text \<open>One step of \<^verbatim>\<open>posixpath.join\<close>: an absolute component replaces what came before,
  any other is appended after exactly one separator.\<close>

definition os_path_join2 :: "string \<Rightarrow> string \<Rightarrow> string" where
  "os_path_join2 path b =
     (if os_path_isabs b then b
      else if path = [] \<or> last path = CHR ''/'' then path @ b
      else path @ ''/'' @ b)"

definition os_path_join :: "string \<Rightarrow> string list \<Rightarrow> string" where
  "os_path_join a ps = foldl os_path_join2 a ps"

definition os_path_dirname :: "string \<Rightarrow> string" where
  "os_path_dirname p =
     (let head = rev (dropWhile (\<lambda>c. c \<noteq> CHR ''/'') (rev p))
      in if head \<noteq> [] \<and> \<not> list_all (\<lambda>c. c = CHR ''/'') head
         then rev (dropWhile (\<lambda>c. c = CHR ''/'') (rev head))
         else head)"

definition os_path_basename :: "string \<Rightarrow> string" where
  "os_path_basename p = rev (takeWhile (\<lambda>c. c \<noteq> CHR ''/'') (rev p))"

text \<open>The loop of \<^verbatim>\<open>posixpath.normpath\<close> over the components of the path.\<close>

fun norm_comps :: "bool \<Rightarrow> string list \<Rightarrow> string list \<Rightarrow> string list" where
  "norm_comps initial_slashes new_comps [] = new_comps"
| "norm_comps initial_slashes new_comps (c # comps) =
     (if c = [] \<or> c = ''.'' then norm_comps initial_slashes new_comps comps
      else if c \<noteq> ''..'' \<or> (\<not> initial_slashes \<and> new_comps = [])
              \<or> (new_comps \<noteq> [] \<and> last new_comps = ''..'')
        then norm_comps initial_slashes (new_comps @ [c]) comps
      else if new_comps \<noteq> [] then norm_comps initial_slashes (butlast new_comps) comps
      else norm_comps initial_slashes new_comps comps)"

text \<open>The number of leading slashes \<^verbatim>\<open>normpath\<close> keeps: none, one, or two when the
  path starts with exactly two.\<close>

definition initial_slashes :: "string \<Rightarrow> nat" where
  "initial_slashes path =
     (if \<not> os_path_isabs path then 0
      else if take 2 path = ''//'' \<and> take 3 path \<noteq> ''///'' then 2
      else 1)"

definition os_path_normpath :: "string \<Rightarrow> string" where
  "os_path_normpath path =
     (if path = [] then ''.''
      else
        let n = initial_slashes path;
            comps = norm_comps (n \<noteq> 0) [] (str_split (CHR ''/'') path);
            res = replicate n (CHR ''/'') @ str_join ''/'' comps
        in if res = [] then ''.'' else res)"

section \<open>The file system\<close>

text \<open>A tree of directories and text files, without symbolic links and without
  permissions. A directory lists its entries in iteration order. The text of a file is
  what reading it in text mode gives: decoded, with every line end a newline.\<close>

datatype node = File string | Dir "(string \<times> node) list"

datatype oserror = ENOENT | ENOTDIR

text \<open>Path resolution from a node, with the chain of its ancestors for \<^verbatim>\<open>..\<close>. An empty
  component or \<^verbatim>\<open>.\<close> stays where it is, and asks for a directory there.\<close>

fun walk :: "node \<Rightarrow> node list \<Rightarrow> string list \<Rightarrow> oserror + node" where
  "walk cur up [] = Inr cur"
| "walk cur up (c # cs) =
     (case cur of
        File _ \<Rightarrow> Inl ENOTDIR
      | Dir entries \<Rightarrow>
          if c = [] \<or> c = ''.'' then walk cur up cs
          else if c = ''..'' then (case up of [] \<Rightarrow> walk cur [] cs | d # ds \<Rightarrow> walk d ds cs)
          else (case map_of entries c of
                  None \<Rightarrow> Inl ENOENT
                | Some n \<Rightarrow> walk n (cur # up) cs))"

section \<open>Exceptions and the environment of the module\<close>

text \<open>The exceptions (subclasses of \<^verbatim>\<open>Exception\<close>) that reach this module: the ones it
  raises itself, the ones of the file system, of JSON parsing and of the import system.
  The string is the message.\<close>

datatype exn =
    FileNotFoundError string
  | NotADirectoryError string
  | IsADirectoryError string
  | ModuleNotFoundError string
  | JSONDecodeError string
  | OtherException string

text \<open>A \<^verbatim>\<open>ModuleSpec\<close>, of which the module reads \<^verbatim>\<open>origin\<close> only.\<close>

record spec =
  origin :: "string option"

text \<open>A \<^verbatim>\<open>pathlib\<close> path (also what \<^verbatim>\<open>importlib.resources.files\<close> returns for a
  package on disk): whether it starts at the root, and its parts.\<close>

record ppath =
  anchored :: bool
  parts :: "string list"

text \<open>Parsed JSON; numbers are the integers.\<close>

datatype json =
    JNull
  | JBool bool
  | JInt int
  | JString string
  | JArray "json list"
  | JObject "(string \<times> json) list"

text \<open>What the module reads from the outside: the import system
  (\<^verbatim>\<open>importlib.util.find_spec\<close>, \<^verbatim>\<open>importlib.resources.files\<close>, both may raise), the file
  system and the working directory, the module's own \<^verbatim>\<open>__file__\<close>, and the JSON parser
  of the standard library, taken as a parameter.\<close>

record env =
  find_spec :: "string \<Rightarrow> exn + spec option"
  files :: "string \<Rightarrow> exn + ppath"
  fs_root :: node
  cwd :: string
  module_file :: string
  json_loads :: "string \<Rightarrow> exn + json"

subsection \<open>String paths\<close>

text \<open>\<^verbatim>\<open>os.stat\<close> of a string path; the empty path names nothing.\<close>

definition stat :: "env \<Rightarrow> string \<Rightarrow> oserror + node" where
  "stat env p =
     (if p = [] then Inl ENOENT
      else walk (fs_root env) []
             ((if os_path_isabs p then [] else str_split (CHR ''/'') (cwd env))
              @ str_split (CHR ''/'') p))"

definition os_path_exists :: "env \<Rightarrow> string \<Rightarrow> bool" where
  "os_path_exists env p = (case stat env p of Inl _ \<Rightarrow> False | Inr _ \<Rightarrow> True)"

definition os_path_abspath :: "env \<Rightarrow> string \<Rightarrow> string" where
  "os_path_abspath env path =
     os_path_normpath (if os_path_isabs path then path else os_path_join (cwd env) [path])"

definition os_error :: "oserror \<Rightarrow> string \<Rightarrow> exn" where
  "os_error e p =
     (case e of
        ENOENT \<Rightarrow> FileNotFoundError (''[Errno 2] No such file or directory: '' @ quoted p)
      | ENOTDIR \<Rightarrow> NotADirectoryError (''[Errno 20] Not a directory: '' @ quoted p))"


subsection \<open>\<^verbatim>\<open>pathlib\<close> paths\<close>

definition Path :: "string \<Rightarrow> ppath" where
  "Path s = \<lparr>anchored = os_path_isabs s,
             parts = filter (\<lambda>c. c \<noteq> [] \<and> c \<noteq> ''.'') (str_split (CHR ''/'') s)\<rparr>"

definition fspath :: "ppath \<Rightarrow> string" where
  "fspath p =
     (if anchored p then ''/'' @ str_join ''/'' (parts p)
      else if parts p = [] then ''.'' else str_join ''/'' (parts p))"

definition parent :: "ppath \<Rightarrow> ppath" where
  "parent p = p\<lparr>parts := butlast (parts p)\<rparr>"

definition name :: "ppath \<Rightarrow> string" where
  "name p = (if parts p = [] then [] else last (parts p))"

text \<open>\<^verbatim>\<open>PurePath.suffix\<close>: from the last dot of the name on, when that dot is neither
  the first nor the last character.\<close>

definition name_suffix :: "string \<Rightarrow> string" where
  "name_suffix n =
     (let ext = rev (takeWhile (\<lambda>c. c \<noteq> CHR ''.'') (rev n))
      in if CHR ''.'' \<in> set n \<and> ext \<noteq> [] \<and> length ext + 1 < length n
         then CHR ''.'' # ext else [])"

definition suffix :: "ppath \<Rightarrow> string" where
  "suffix p = name_suffix (name p)"

text \<open>\<^verbatim>\<open>p / n\<close> and \<^verbatim>\<open>p.joinpath(n)\<close> for a name \<open>n\<close> of one part.\<close>

definition joinpath :: "ppath \<Rightarrow> string \<Rightarrow> ppath" where
  "joinpath p n = p\<lparr>parts := parts p @ [n]\<rparr>"

definition pstat :: "env \<Rightarrow> ppath \<Rightarrow> oserror + node" where
  "pstat env p =
     walk (fs_root env) []
       ((if anchored p then [] else str_split (CHR ''/'') (cwd env)) @ parts p)"

definition is_dir :: "env \<Rightarrow> ppath \<Rightarrow> bool" where
  "is_dir env p = (case pstat env p of Inr (Dir _) \<Rightarrow> True | _ \<Rightarrow> False)"

definition is_file :: "env \<Rightarrow> ppath \<Rightarrow> bool" where
  "is_file env p = (case pstat env p of Inr (File _) \<Rightarrow> True | _ \<Rightarrow> False)"

definition iterdir :: "env \<Rightarrow> ppath \<Rightarrow> exn + ppath list" where
  "iterdir env p =
     (case pstat env p of
        Inl e \<Rightarrow> Inl (os_error e (fspath p))
      | Inr (File _) \<Rightarrow> Inl (NotADirectoryError (''[Errno 20] Not a directory: '' @ quoted (fspath p)))
      | Inr (Dir entries) \<Rightarrow> Inr (map (\<lambda>e. joinpath p (fst e)) entries))"

definition open_read_path :: "env \<Rightarrow> ppath \<Rightarrow> exn + string" where
  "open_read_path env p =
     (case pstat env p of
        Inl e \<Rightarrow> Inl (os_error e (fspath p))
      | Inr (Dir _) \<Rightarrow> Inl (IsADirectoryError (''[Errno 21] Is a directory: '' @ quoted (fspath p)))
      | Inr (File text) \<Rightarrow> Inr text)"

section \<open>\<^verbatim>\<open>pymkm/io/data_registry.py\<close>\<close>

definition REQUIRED_HEADER_KEYS :: "string list" where
  "REQUIRED_HEADER_KEYS =
     [''Ion'', ''AtomicNumber'', ''MassNumber'', ''SourceProgram'', ''IonizationPotential'',
      ''Target'']"

subsection \<open>\<^verbatim>\<open>get_default_txt_path\<close>\<close>

text \<open>The body of the \<^verbatim>\<open>try\<close>: \<open>Inr (Some p)\<close> when it returns \<open>p\<close>, \<open>Inr None\<close> when it
  falls through, \<open>Inl e\<close> when \<^verbatim>\<open>find_spec\<close> raises.\<close>

definition installed_txt_path :: "env \<Rightarrow> string \<Rightarrow> string \<Rightarrow> exn + string option" where
  "installed_txt_path env source filename =
     (case find_spec env (''pymkm.data.defaults.'' @ source) of
        Inl e \<Rightarrow> Inl e
      | Inr None \<Rightarrow> Inr None
      | Inr (Some sp) \<Rightarrow>
          (case origin sp of
             None \<Rightarrow> Inr None
           | Some orig \<Rightarrow>
               let base_dir = os_path_dirname orig;
                   full_path = os_path_join base_dir [filename]
               in if os_path_exists env full_path then Inr (Some full_path) else Inr None))"

definition local_txt_path :: "env \<Rightarrow> string \<Rightarrow> string \<Rightarrow> string" where
  "local_txt_path env source filename =
     os_path_abspath env
       (os_path_join (os_path_dirname (module_file env))
          [''..'', ''data'', ''defaults'', source, filename])"

definition not_found_message :: "string \<Rightarrow> string \<Rightarrow> string" where
  "not_found_message source filename =
     ''Cannot find file '' @ quoted filename @ '' for source '' @ quoted source"

definition get_default_txt_path :: "env \<Rightarrow> string \<Rightarrow> string \<Rightarrow> exn + string" where
  "get_default_txt_path env source filename =
     (case (case installed_txt_path env source filename of
              Inl e \<Rightarrow> None   \<comment> \<open>\<^verbatim>\<open>except Exception: pass\<close>\<close>
            | Inr r \<Rightarrow> r) of
        Some full_path \<Rightarrow> Inr full_path
      | None \<Rightarrow>
          let local = local_txt_path env source filename
          in if os_path_exists env local then Inr local
             else Inl (FileNotFoundError (not_found_message source filename)))"

subsection \<open>\<^verbatim>\<open>get_available_sources\<close>\<close>

text \<open>The dictionary comprehension over the lines that contain \<^verbatim>\<open>=\<close>: the text before
  the first \<^verbatim>\<open>=\<close> is the key, the text up to the second the value, both stripped; a
  later line replaces an earlier one with the same key.\<close>

definition header_entry :: "string \<Rightarrow> string \<times> string" where
  "header_entry line =
     (let pieces = str_split (CHR ''='') line
      in (str_strip (pieces ! 0), str_strip (pieces ! 1)))"

definition parse_header :: "string list \<Rightarrow> (string \<rightharpoonup> string)" where
  "parse_header lines =
     foldl (\<lambda>header line. header(fst (header_entry line) \<mapsto> snd (header_entry line)))
       Map.empty (filter (\<lambda>line. CHR ''='' \<in> set line) lines)"

definition missing_keys :: "string \<Rightarrow> string list" where
  "missing_keys text =
     (let header = parse_header (readlines text)
      in filter (\<lambda>key. header key = None) REQUIRED_HEADER_KEYS)"

definition malformed_message :: "string \<Rightarrow> string list \<Rightarrow> string" where
  "malformed_message subdir_name missing =
     ''Source files with unexpected header format in default source folder '' @ subdir_name
     @ '': '' @ str_join '', '' missing @ ''.'' @ [CHR 0x0A]
     @ ''Could not locate default sources.''"

text \<open>The inner loop over the \<^verbatim>\<open>.txt\<close> entries of one subdirectory.\<close>

fun check_txt_files :: "env \<Rightarrow> ppath \<Rightarrow> ppath list \<Rightarrow> exn + unit" where
  "check_txt_files env subdir [] = Inr ()"
| "check_txt_files env subdir (txt_file # rest) =
     (case open_read_path env txt_file of
        Inl e \<Rightarrow> Inl e
      | Inr text \<Rightarrow>
          let missing = missing_keys text
          in if missing \<noteq> []
             then Inl (FileNotFoundError (malformed_message (name subdir) missing))
             else check_txt_files env subdir rest)"

text \<open>The outer loop, with the list \<^verbatim>\<open>subdirectories\<close> it appends to.\<close>

fun scan_subdirectories :: "env \<Rightarrow> ppath list \<Rightarrow> string list \<Rightarrow> exn + string list" where
  "scan_subdirectories env [] subdirectories = Inr subdirectories"
| "scan_subdirectories env (subdir # rest) subdirectories =
     (if \<not> is_file env (joinpath subdir ''__init__.py'')
      then scan_subdirectories env rest subdirectories
      else
        (case iterdir env subdir of
           Inl e \<Rightarrow> Inl e
         | Inr entries \<Rightarrow>
             (case check_txt_files env subdir (filter (\<lambda>f. suffix f = ''.txt'') entries) of
                Inl e \<Rightarrow> Inl e
              | Inr _ \<Rightarrow> scan_subdirectories env rest (subdirectories @ [name subdir]))))"

text \<open>\<^verbatim>\<open>[f for f in d.iterdir() if f.is_dir()]\<close>.\<close>

definition list_subdirectories :: "env \<Rightarrow> ppath \<Rightarrow> exn + ppath list" where
  "list_subdirectories env d =
     (case iterdir env d of Inl e \<Rightarrow> Inl e | Inr fs \<Rightarrow> Inr (filter (is_dir env) fs))"

definition get_available_sources :: "env \<Rightarrow> exn + string list" where
  "get_available_sources env =
     (case (case files env ''pymkm.data.defaults'' of
              Inl e \<Rightarrow> Inl e
            | Inr base \<Rightarrow> list_subdirectories env base) of
        Inl _ \<Rightarrow>
          \<comment> \<open>\<^verbatim>\<open>except Exception\<close>: whatever the listing gives, the branch ends in the \<^verbatim>\<open>raise\<close>\<close>
          (case find_spec env ''pymkm.data.defaults'' of
             Inl e \<Rightarrow> Inl e
           | Inr None \<Rightarrow> Inl (FileNotFoundError ''Could not locate default sources.'')
           | Inr (Some sp) \<Rightarrow>
               (case origin sp of
                  None \<Rightarrow> Inl (FileNotFoundError ''Could not locate default sources.'')
                | Some orig \<Rightarrow>
                    if orig = [] then Inl (FileNotFoundError ''Could not locate default sources.'')
                    else
                      (case list_subdirectories env (parent (Path orig)) of
                         Inl e \<Rightarrow> Inl e
                       | Inr all_subdirectories \<Rightarrow>
                           Inl (FileNotFoundError ''Could not locate default sources.''))))
      | Inr all_subdirectories \<Rightarrow> scan_subdirectories env all_subdirectories [])"

subsection \<open>\<^verbatim>\<open>list_available_defaults\<close>\<close>



subsection \<open>\<^verbatim>\<open>load_lookup_table\<close>\<close>



section \<open>The notions of the specification\<close>

text \<open>A file name: one path segment, neither empty nor \<^verbatim>\<open>.\<close> nor \<^verbatim>\<open>..\<close>.\<close>

definition simple_name :: "string \<Rightarrow> bool" where
  "simple_name f = (f \<noteq> [] \<and> CHR ''/'' \<notin> set f \<and> f \<noteq> ''.'' \<and> f \<noteq> ''..'')"

text \<open>The file is present in the installed tier: the package of the source resolves to a
  spec with an origin, and the file exists beside that origin.\<close>

definition in_installed_tier :: "env \<Rightarrow> string \<Rightarrow> string \<Rightarrow> bool" where
  "in_installed_tier env source filename =
     (case find_spec env (''pymkm.data.defaults.'' @ source) of
        Inr (Some sp) \<Rightarrow>
          (case origin sp of
             Some orig \<Rightarrow> os_path_exists env (os_path_join (os_path_dirname orig) [filename])
           | None \<Rightarrow> False)
      | _ \<Rightarrow> False)"

definition in_local_tier :: "env \<Rightarrow> string \<Rightarrow> string \<Rightarrow> bool" where
  "in_local_tier env source filename = os_path_exists env (local_txt_path env source filename)"

text \<open>The directory of a source in the local tier.\<close>

definition local_source_dir :: "env \<Rightarrow> string \<Rightarrow> string" where
  "local_source_dir env source =
     os_path_abspath env
       (os_path_join (os_path_dirname (module_file env)) [''..'', ''data'', ''defaults'', source])"

text \<open>A subdirectory bears the package marker; its \<^verbatim>\<open>.txt\<close> entries; an entry is a
  readable text file that declares every required key; a source is valid when all its
  \<^verbatim>\<open>.txt\<close> entries are.\<close>

definition has_marker :: "env \<Rightarrow> ppath \<Rightarrow> bool" where
  "has_marker env subdir = is_file env (joinpath subdir ''__init__.py'')"

definition txt_files :: "env \<Rightarrow> ppath \<Rightarrow> ppath list" where
  "txt_files env subdir =
     (case iterdir env subdir of
        Inl _ \<Rightarrow> []
      | Inr entries \<Rightarrow> filter (\<lambda>f. suffix f = ''.txt'') entries)"

definition well_formed_txt :: "env \<Rightarrow> ppath \<Rightarrow> bool" where
  "well_formed_txt env f =
     (case open_read_path env f of Inl _ \<Rightarrow> False | Inr text \<Rightarrow> missing_keys text = [])"

definition valid_source :: "env \<Rightarrow> ppath \<Rightarrow> bool" where
  "valid_source env subdir = list_all (well_formed_txt env) (txt_files env subdir)"






text \<open>The path is the name, or ends in a separator followed by the name.\<close>

definition ends_in :: "string \<Rightarrow> string \<Rightarrow> bool" where
  "ends_in p f = (p = f \<or> (\<exists>a. p = a @ ''/'' @ f))"



section \<open>Sample installations\<close>

definition carbon_header :: string where
  "carbon_header =
     ''Ion=C'' @ [CHR 0x0A] @ ''AtomicNumber=6'' @ [CHR 0x0A] @ ''MassNumber=12'' @ [CHR 0x0A]
     @ ''SourceProgram=Geant4'' @ [CHR 0x0A] @ ''IonizationPotential=78.0'' @ [CHR 0x0A]
     @ ''Target=Water'' @ [CHR 0x0A]"

definition no_target_header :: string where
  "no_target_header =
     ''Ion=C'' @ [CHR 0x0A] @ ''AtomicNumber=6'' @ [CHR 0x0A] @ ''MassNumber=12'' @ [CHR 0x0A]
     @ ''SourceProgram=Geant4'' @ [CHR 0x0A] @ ''IonizationPotential=78.0'' @ [CHR 0x0A]"

text \<open>The text \<^verbatim>\<open>{"H": {"Z": 1}}\<close> and its value.\<close>

definition hydrogen_text :: string where
  "hydrogen_text =
     ''{'' @ [CHR 0x22] @ ''H'' @ [CHR 0x22] @ '': {'' @ [CHR 0x22] @ ''Z'' @ [CHR 0x22]
     @ '': 1}}''"

definition hydrogen_table :: json where
  "hydrogen_table = JObject [(''H'', JObject [(''Z'', JInt 1)])]"

text \<open>A parser that knows this one text, for the sample installations only.\<close>

definition sample_loads :: "string \<Rightarrow> exn + json" where
  "sample_loads text =
     (if text = hydrogen_text then Inr hydrogen_table
      else Inl (JSONDecodeError ''Expecting value''))"

text \<open>A registry with one valid source, a directory without the marker, and a plain
  file; and one where a malformed source stands between two valid ones.\<close>

definition good_registry :: node where
  "good_registry =
     Dir [(''__init__.py'', File []),
          (''geant4_11_3_0'', Dir [(''__init__.py'', File []), (''carbon.txt'', File carbon_header)]),
          (''notes'', Dir [(''draft.txt'', File ''to do'')]),
          (''README.md'', File [])]"

definition bad_registry :: node where
  "bad_registry =
     Dir [(''__init__.py'', File []),
          (''geant4_11_3_0'', Dir [(''__init__.py'', File []), (''carbon.txt'', File carbon_header)]),
          (''mstar_3_12'', Dir [(''__init__.py'', File []), (''carbon.txt'', File no_target_header)]),
          (''fluka_2020_0'', Dir [(''__init__.py'', File []), (''carbon.txt'', File carbon_header)])]"

text \<open>The package installed under \<^verbatim>\<open>/site\<close>, with the given \<^verbatim>\<open>elements.json\<close> and registry.\<close>

definition site_fs :: "string \<Rightarrow> node \<Rightarrow> node" where
  "site_fs elements registry =
     Dir [(''site'', Dir [(''pymkm'', Dir
       [(''io'', Dir [(''data_registry.py'', File [])]),
        (''data'', Dir [(''elements.json'', File elements), (''defaults'', registry)])])])]"

definition site_packages :: "string list" where
  "site_packages = [''pymkm.data'', ''pymkm.data.defaults'', ''pymkm.data.defaults.geant4_11_3_0'']"

definition pkg_dir :: "string \<Rightarrow> string" where
  "pkg_dir pkg = ''/site/'' @ map (\<lambda>c. if c = CHR ''.'' then CHR ''/'' else c) pkg"

definition no_module :: "string \<Rightarrow> exn" where
  "no_module pkg = ModuleNotFoundError (''No module named '' @ quoted pkg)"

definition site_files :: "string \<Rightarrow> exn + ppath" where
  "site_files pkg = (if pkg \<in> set site_packages then Inr (Path (pkg_dir pkg)) else Inl (no_module pkg))"

definition site_find_spec :: "string \<Rightarrow> exn + spec option" where
  "site_find_spec pkg =
     (if pkg \<in> set site_packages then Inr (Some \<lparr>origin = Some (pkg_dir pkg @ ''/__init__.py'')\<rparr>)
      else Inr None)"

text \<open>The usual installation; one where \<^verbatim>\<open>importlib.resources.files\<close> fails and only
  \<^verbatim>\<open>find_spec\<close> resolves the packages; one where the import system resolves nothing and
  only the local tree beside the module is left.\<close>

definition installed_env :: "node \<Rightarrow> env" where
  "installed_env fs =
     \<lparr>find_spec = site_find_spec, files = site_files, fs_root = fs, cwd = ''/'',
      module_file = ''/site/pymkm/io/data_registry.py'', json_loads = sample_loads\<rparr>"

definition fallback_env :: "node \<Rightarrow> env" where
  "fallback_env fs =
     \<lparr>find_spec = site_find_spec, files = (\<lambda>pkg. Inl (no_module pkg)), fs_root = fs, cwd = ''/'',
      module_file = ''/site/pymkm/io/data_registry.py'', json_loads = sample_loads\<rparr>"

definition local_env :: "node \<Rightarrow> env" where
  "local_env fs =
     \<lparr>find_spec = (\<lambda>pkg. Inl (no_module pkg)), files = (\<lambda>pkg. Inl (no_module pkg)),
      fs_root = fs, cwd = ''/'',
      module_file = ''/site/pymkm/io/data_registry.py'', json_loads = sample_loads\<rparr>"



section \<open>Strings and paths\<close>

lemma str_split_not_Nil [simp]: "str_split c s \<noteq> []"
  by (induction s) (auto split: list.splits)

lemma str_split_no_sep: "c \<notin> set s \<Longrightarrow> str_split c s = [s]"
  by (induction s) auto

lemma str_split_append_sep: "str_split c (a @ c # b) = str_split c a @ str_split c b"
  by (induction a) (auto split: list.splits)

lemma str_split_snoc_sep: "str_split c (a @ [c]) = str_split c a @ [[]]"
  using str_split_append_sep [of c a "[]"] by simp

lemma norm_comps_append:
  "norm_comps r acc (xs @ ys) = norm_comps r (norm_comps r acc xs) ys"
  by (induction xs arbitrary: acc) auto

lemma str_join_snoc:
  "str_join sep (xs @ [x]) = (if xs = [] then x else str_join sep xs @ sep @ x)"
  by (induction sep xs rule: str_join.induct) auto

lemma takeWhile_rev_no_sep:
  "c \<notin> set f \<Longrightarrow> takeWhile (\<lambda>x. x \<noteq> c) (rev f) = rev f"
  by (rule takeWhile_eq_all_conv [THEN iffD2]) auto

lemma os_path_basename_plain:
  "CHR ''/'' \<notin> set f \<Longrightarrow> os_path_basename f = f"
  by (simp add: os_path_basename_def takeWhile_rev_no_sep)

lemma os_path_basename_append:
  "CHR ''/'' \<notin> set f \<Longrightarrow> os_path_basename (a @ ''/'' @ f) = f"
  by (simp add: os_path_basename_def takeWhile_tail takeWhile_rev_no_sep)

lemma walk_snoc_empty:
  "walk cur up (cs @ [[]]) =
     (case walk cur up cs of Inl e \<Rightarrow> Inl e | Inr (File t) \<Rightarrow> Inl ENOTDIR | Inr (Dir es) \<Rightarrow> Inr (Dir es))"
  by (induction cs arbitrary: cur up) (auto split: node.splits list.splits option.splits)

lemma os_path_join2_simple:
  "CHR ''/'' \<notin> set f \<Longrightarrow>
     os_path_join2 a f = (if a = [] \<or> last a = CHR ''/'' then a @ f else a @ ''/'' @ f)"
  by (cases f) (auto simp: os_path_join2_def os_path_isabs_def)

lemma os_path_basename_join2:
  assumes "CHR ''/'' \<notin> set f"
  shows "os_path_basename (os_path_join2 a f) = f"
proof (cases "a = [] \<or> last a = CHR ''/''")
  case False
  then show ?thesis
    using assms os_path_basename_append [of f a] by (simp add: os_path_join2_simple)
next
  case True
  show ?thesis
  proof (cases "a = []")
    case True
    then show ?thesis using assms by (simp add: os_path_join2_simple os_path_basename_plain)
  next
    case False
    with True obtain b where "a = b @ ''/''"
      by (metis append_butlast_last_id)
    then show ?thesis
      using assms os_path_basename_append [of f b] by (simp add: os_path_join2_simple)
  qed
qed

lemma ends_in_join2: "CHR ''/'' \<notin> set f \<Longrightarrow> ends_in (os_path_join2 a f) f"
proof -
  assume f: "CHR ''/'' \<notin> set f"
  show ?thesis
  proof (cases "a = []")
    case True
    then show ?thesis using f by (simp add: os_path_join2_simple ends_in_def)
  next
    case False
    show ?thesis
    proof (cases "last a = CHR ''/''")
      case True
      with False obtain b where "a = b @ ''/''" by (metis append_butlast_last_id)
      then have "os_path_join2 a f = b @ ''/'' @ f" using f by (simp add: os_path_join2_simple)
      then show ?thesis unfolding ends_in_def by blast
    next
      case False
      then have "os_path_join2 a f = a @ ''/'' @ f"
        using f \<open>a \<noteq> []\<close> by (simp add: os_path_join2_simple)
      then show ?thesis unfolding ends_in_def by blast
    qed
  qed
qed

lemma ends_in_join2_left:
  assumes "ends_in p f" "simple_name f" "\<not> os_path_isabs p"
  shows "ends_in (os_path_join2 a p) f"
proof -
  have "os_path_join2 a p = (if a = [] \<or> last a = CHR ''/'' then a @ p else a @ ''/'' @ p)"
    using assms(3) by (simp add: os_path_join2_def)
  moreover from assms(1) consider "p = f" | a' where "p = a' @ ''/'' @ f"
    by (auto simp: ends_in_def)
  then have "\<exists>b. a @ p = b @ ''/'' @ f \<or> (a = [] \<and> p = f)" if "a = [] \<or> last a = CHR ''/''"
  proof cases
    case 1
    show ?thesis
    proof (cases "a = []")
      case True then show ?thesis using 1 by simp
    next
      case False
      with that obtain b where "a = b @ ''/''" by (metis append_butlast_last_id)
      then show ?thesis using 1 by auto
    qed
  next
    case 2
    then have "a @ p = (a @ a') @ ''/'' @ f" by simp
    then show ?thesis by blast
  qed
  moreover have "\<exists>b. a @ ''/'' @ p = b @ ''/'' @ f"
    using assms(1) unfolding ends_in_def
  proof
    assume "p = f" then show ?thesis by blast
  next
    assume "\<exists>a'. p = a' @ ''/'' @ f"
    then obtain a' where "p = a' @ ''/'' @ f" ..
    then have "a @ ''/'' @ p = (a @ ''/'' @ a') @ ''/'' @ f" by simp
    then show ?thesis by blast
  qed
  ultimately show ?thesis
    unfolding ends_in_def by (auto split: if_splits)
qed

lemma str_split_ends_in:
  assumes "ends_in p f" "CHR ''/'' \<notin> set f"
  shows "\<exists>pre. str_split (CHR ''/'') p = pre @ [f]"
  using assms(1) unfolding ends_in_def
proof
  assume "p = f"
  then have "str_split (CHR ''/'') p = [] @ [f]" using assms(2) by (simp add: str_split_no_sep)
  then show ?thesis by blast
next
  assume "\<exists>a. p = a @ ''/'' @ f"
  then obtain a where "p = a @ ''/'' @ f" ..
  then have "str_split (CHR ''/'') p = str_split (CHR ''/'') a @ [f]"
    using assms(2) by (simp add: str_split_append_sep str_split_no_sep)
  then show ?thesis by blast
qed

lemma os_path_basename_slashes:
  assumes "CHR ''/'' \<notin> set f"
  shows "os_path_basename (replicate n (CHR ''/'') @ f) = f"
proof (cases n)
  case 0
  then show ?thesis using assms by (simp add: os_path_basename_plain)
next
  case (Suc m)
  have "replicate (Suc m) (CHR ''/'') = replicate m (CHR ''/'') @ ''/''"
    by (simp add: replicate_append_same)
  then have "replicate n (CHR ''/'') @ f = replicate m (CHR ''/'') @ ''/'' @ f"
    using Suc by simp
  then show ?thesis using os_path_basename_append [OF assms] by simp
qed

lemma os_path_basename_normpath:
  assumes "ends_in p f" "simple_name f"
  shows "os_path_basename (os_path_normpath p) = f"
proof -
  have nosep: "CHR ''/'' \<notin> set f" and fne: "f \<noteq> []" "f \<noteq> ''.''" "f \<noteq> ''..''"
    using assms(2) by (auto simp: simple_name_def)
  obtain pre where pre: "str_split (CHR ''/'') p = pre @ [f]"
    using str_split_ends_in [OF assms(1) nosep] by blast
  have pne: "p \<noteq> []" using assms(1) fne by (auto simp: ends_in_def)
  define n where "n = initial_slashes p"
  define A where "A = norm_comps (n \<noteq> 0) [] pre"
  have comps: "norm_comps (n \<noteq> 0) [] (str_split (CHR ''/'') p) = A @ [f]"
    using fne by (simp add: pre norm_comps_append A_def)
  have joined: "str_join ''/'' (A @ [f]) = (if A = [] then f else str_join ''/'' A @ ''/'' @ f)"
    by (rule str_join_snoc)
  have ne: "replicate n (CHR ''/'') @ str_join ''/'' (A @ [f]) \<noteq> []"
    using fne by (simp add: joined)
  have norm: "os_path_normpath p = replicate n (CHR ''/'') @ str_join ''/'' (A @ [f])"
    using pne ne unfolding os_path_normpath_def Let_def n_def [symmetric] comps
    by (simp only: if_False)
  show ?thesis
  proof (cases "A = []")
    case True
    then show ?thesis
      using os_path_basename_slashes [OF nosep, of n] by (simp add: norm)
  next
    case False
    then have "os_path_normpath p = (replicate n (CHR ''/'') @ str_join ''/'' A) @ ''/'' @ f"
      by (simp add: norm joined)
    then show ?thesis using os_path_basename_append [OF nosep] by metis
  qed
qed

lemma os_path_join_snoc: "os_path_join a (ps @ [f]) = os_path_join2 (os_path_join a ps) f"
  by (simp add: os_path_join_def)

lemma os_path_join_single: "os_path_join a [f] = os_path_join2 a f"
  by (simp add: os_path_join_def)

lemma ends_in_not_abs_or:
  assumes "ends_in p f" "simple_name f"
  shows "ends_in (if os_path_isabs p then p else os_path_join c [p]) f"
  using assms ends_in_join2_left [of p f c] by (simp add: os_path_join_single)

lemma local_txt_path_basename:
  assumes "simple_name filename"
  shows "os_path_basename (local_txt_path env source filename) = filename"
proof -
  have nosep: "CHR ''/'' \<notin> set filename" using assms by (simp add: simple_name_def)
  let ?d = "os_path_dirname (module_file env)"
  have "os_path_join ?d [''..'', ''data'', ''defaults'', source, filename]
      = os_path_join2 (os_path_join ?d [''..'', ''data'', ''defaults'', source]) filename"
    using os_path_join_snoc [of ?d "[''..'', ''data'', ''defaults'', source]" filename] by simp
  then have "ends_in (os_path_join ?d [''..'', ''data'', ''defaults'', source, filename]) filename"
    using ends_in_join2 [OF nosep] by simp
  then show ?thesis
    unfolding local_txt_path_def os_path_abspath_def
    by (intro os_path_basename_normpath ends_in_not_abs_or assms)
qed

lemma installed_txt_path_Some:
  "installed_txt_path env source filename = Inr (Some p) \<longleftrightarrow>
     (\<exists>sp orig. find_spec env (''pymkm.data.defaults.'' @ source) = Inr (Some sp)
        \<and> origin sp = Some orig \<and> p = os_path_join (os_path_dirname orig) [filename]
        \<and> os_path_exists env p)"
  by (auto simp: installed_txt_path_def Let_def split: sum.splits option.splits)

lemma in_installed_tier_iff:
  "in_installed_tier env source filename \<longleftrightarrow>
     (\<exists>p. installed_txt_path env source filename = Inr (Some p))"
  by (auto simp: installed_txt_path_def in_installed_tier_def Let_def split: sum.splits option.splits)

section \<open>Locating a file\<close>

text \<open>
  Claim C5. When \<open>filename\<close> is a file name and the file is present in at least one of
  the two tiers, \<^verbatim>\<open>get_default_txt_path\<close> returns a path that exists, whose last segment
  is \<open>filename\<close>, and which is the installed path whenever the installed tier has the file.
\<close>

theorem get_default_txt_path_found:
  assumes "simple_name filename"
    and "in_installed_tier env source filename \<or> in_local_tier env source filename"
  shows "\<exists>p. get_default_txt_path env source filename = Inr p
           \<and> os_path_exists env p
           \<and> os_path_basename p = filename
           \<and> (\<forall>sp orig. find_spec env (''pymkm.data.defaults.'' @ source) = Inr (Some sp)
                 \<and> origin sp = Some orig
                 \<and> os_path_exists env (os_path_join (os_path_dirname orig) [filename])
               \<longrightarrow> p = os_path_join (os_path_dirname orig) [filename])"
proof (cases "in_installed_tier env source filename")
  case True
  then obtain p where p: "installed_txt_path env source filename = Inr (Some p)"
    by (auto simp: in_installed_tier_iff)
  then obtain sp orig where so: "find_spec env (''pymkm.data.defaults.'' @ source) = Inr (Some sp)"
      "origin sp = Some orig" "p = os_path_join (os_path_dirname orig) [filename]"
      "os_path_exists env p"
    by (auto simp: installed_txt_path_Some)
  have nosep: "CHR ''/'' \<notin> set filename" using assms(1) by (simp add: simple_name_def)
  have "os_path_basename p = filename"
    using os_path_basename_join2 [OF nosep] so(3) by (simp add: os_path_join_single)
  moreover have "get_default_txt_path env source filename = Inr p"
    by (simp add: get_default_txt_path_def p)
  ultimately show ?thesis using so by auto
next
  case False
  then have "in_local_tier env source filename" using assms(2) by simp
  moreover have "(case installed_txt_path env source filename of Inl e \<Rightarrow> None | Inr r \<Rightarrow> r) = None"
    using False by (auto simp: in_installed_tier_iff split: sum.splits)
  ultimately have "get_default_txt_path env source filename = Inr (local_txt_path env source filename)"
    by (simp add: get_default_txt_path_def in_local_tier_def Let_def)
  moreover have "\<not> (\<exists>sp orig. find_spec env (''pymkm.data.defaults.'' @ source) = Inr (Some sp)
                 \<and> origin sp = Some orig
                 \<and> os_path_exists env (os_path_join (os_path_dirname orig) [filename]))"
    using False by (auto simp: in_installed_tier_def)
  ultimately show ?thesis
    using \<open>in_local_tier env source filename\<close> local_txt_path_basename [OF assms(1)]
    by (auto simp: in_local_tier_def)
qed

theorem get_default_txt_path_found_witness:
  "simple_name ''carbon.txt''
   \<and> in_installed_tier (installed_env (site_fs hydrogen_text good_registry)) ''geant4_11_3_0'' ''carbon.txt''
   \<and> (\<exists>p. get_default_txt_path (installed_env (site_fs hydrogen_text good_registry))
              ''geant4_11_3_0'' ''carbon.txt'' = Inr p
          \<and> os_path_exists (installed_env (site_fs hydrogen_text good_registry)) p
          \<and> os_path_basename p = ''carbon.txt'')
   \<and> in_local_tier (local_env (site_fs hydrogen_text good_registry)) ''geant4_11_3_0'' ''carbon.txt''
   \<and> (\<exists>p. get_default_txt_path (local_env (site_fs hydrogen_text good_registry))
              ''geant4_11_3_0'' ''carbon.txt'' = Inr p
          \<and> os_path_exists (local_env (site_fs hydrogen_text good_registry)) p
          \<and> os_path_basename p = ''carbon.txt'')"
proof -
  have n: "simple_name ''carbon.txt''" by code_simp
  have i: "in_installed_tier (installed_env (site_fs hydrogen_text good_registry))
             ''geant4_11_3_0'' ''carbon.txt''"
    by code_simp
  have l: "in_local_tier (local_env (site_fs hydrogen_text good_registry))
             ''geant4_11_3_0'' ''carbon.txt''"
    by code_simp
  show ?thesis
    using n i l get_default_txt_path_found [OF n disjI1 [OF i]]
      get_default_txt_path_found [OF n disjI2 [OF l]]
    by blast
qed





subsection \<open>The empty file name\<close>

lemma os_path_join2_empty:
  "os_path_join2 d [] = (if d = [] \<or> last d = CHR ''/'' then d else d @ ''/'')"
  by (simp add: os_path_join2_def os_path_isabs_def)

lemma os_path_isabs_snoc: "d \<noteq> [] \<Longrightarrow> os_path_isabs (d @ x) = os_path_isabs d"
  by (simp add: os_path_isabs_def)

lemma stat_trailing_slash:
  assumes "stat env d = Inr (Dir es)"
  shows "stat env (d @ ''/'') = Inr (Dir es)"
proof -
  have dne: "d \<noteq> []" using assms by (auto simp: stat_def)
  let ?pre = "if os_path_isabs d then [] else str_split (CHR ''/'') (cwd env)"
  have w: "walk (fs_root env) [] (?pre @ str_split (CHR ''/'') d) = Inr (Dir es)"
    using assms dne by (simp add: stat_def)
  have "stat env (d @ ''/'') = walk (fs_root env) [] ((?pre @ str_split (CHR ''/'') d) @ [[]])"
    using dne str_split_snoc_sep [of "CHR ''/''" d]
    by (simp add: stat_def os_path_isabs_snoc)
  also have "\<dots> = Inr (Dir es)"
    by (simp only: walk_snoc_empty w) simp
  finally show ?thesis .
qed

lemma stat_join_empty:
  assumes "stat env d = Inr (Dir es)"
  shows "stat env (os_path_join d [[]]) = Inr (Dir es)"
  using assms stat_trailing_slash [OF assms]
  by (simp add: os_path_join_single os_path_join2_empty)

lemma initial_slashes_trailing:
  assumes "x \<noteq> []" "last x \<noteq> CHR ''/''"
  shows "initial_slashes (x @ ''/'') = initial_slashes x"
proof -
  consider a where "x = [a]" | a b where "x = [a, b]" | a b c r where "x = a # b # c # r"
    using assms(1) by (metis list.exhaust)
  then show ?thesis
  proof cases
    case 1 then show ?thesis using assms(2) by (simp add: initial_slashes_def os_path_isabs_def)
  next
    case 2 then show ?thesis using assms(2) by (simp add: initial_slashes_def os_path_isabs_def)
  next
    case 3 then show ?thesis by (simp add: initial_slashes_def os_path_isabs_def)
  qed
qed

lemma os_path_normpath_trailing:
  assumes "x \<noteq> []" "last x \<noteq> CHR ''/''"
  shows "os_path_normpath (x @ ''/'') = os_path_normpath x"
proof -
  have "norm_comps r [] (str_split (CHR ''/'') (x @ ''/'')) = norm_comps r [] (str_split (CHR ''/'') x)" for r
    using str_split_snoc_sep [of "CHR ''/''" x] by (simp add: norm_comps_append)
  then show ?thesis
    using assms initial_slashes_trailing [OF assms]
    by (simp add: os_path_normpath_def)
qed

lemma os_path_abspath_trailing:
  assumes "x \<noteq> []" "last x \<noteq> CHR ''/''"
  shows "os_path_abspath env (x @ ''/'') = os_path_abspath env x"
proof (cases "os_path_isabs x")
  case True
  then show ?thesis
    using assms os_path_normpath_trailing [OF assms]
    by (simp add: os_path_abspath_def os_path_isabs_snoc)
next
  case False
  then have j: "os_path_join2 c (x @ ''/'') = os_path_join2 c x @ ''/''" for c
    using assms by (simp add: os_path_join2_def os_path_isabs_snoc)
  have "os_path_join2 c x \<noteq> []" "last (os_path_join2 c x) \<noteq> CHR ''/''" for c
    using assms False by (auto simp: os_path_join2_def)
  then show ?thesis
    using False assms os_path_normpath_trailing [of "os_path_join2 (cwd env) x"]
    by (simp add: os_path_abspath_def os_path_isabs_snoc os_path_join_single j)
qed

lemma local_txt_path_empty: "local_txt_path env source [] = local_source_dir env source"
proof -
  let ?j = "os_path_join (os_path_dirname (module_file env)) [''..'', ''data'', ''defaults'', source]"
  have "os_path_join (os_path_dirname (module_file env)) [''..'', ''data'', ''defaults'', source, []]
      = os_path_join2 ?j []"
    using os_path_join_snoc [of _ "[''..'', ''data'', ''defaults'', source]" "[]"] by simp
  then show ?thesis
    using os_path_abspath_trailing [of ?j env]
    by (simp add: local_txt_path_def local_source_dir_def os_path_join2_empty)
qed

text \<open>
  Claim C10. With the empty string for \<open>filename\<close>, \<^verbatim>\<open>get_default_txt_path\<close> does not fail
  when the directory of the source exists: in the installed tier it returns the directory
  beside the origin, written with a trailing separator, a path that resolves to that same
  directory; otherwise, when the local directory of the source exists, it returns the
  path of that directory.
\<close>

theorem get_default_txt_path_empty_filename:
  "(\<forall>sp orig es.
       find_spec env (''pymkm.data.defaults.'' @ source) = Inr (Some sp)
       \<and> origin sp = Some orig
       \<and> stat env (os_path_dirname orig) = Inr (Dir es)
     \<longrightarrow> get_default_txt_path env source [] = Inr (os_path_join (os_path_dirname orig) [[]])
         \<and> stat env (os_path_join (os_path_dirname orig) [[]]) = Inr (Dir es))
   \<and> (\<not> in_installed_tier env source [] \<and> os_path_exists env (local_source_dir env source)
     \<longrightarrow> get_default_txt_path env source [] = Inr (local_source_dir env source))"
proof (intro conjI allI impI)
  fix sp orig es
  assume a: "find_spec env (''pymkm.data.defaults.'' @ source) = Inr (Some sp)
       \<and> origin sp = Some orig \<and> stat env (os_path_dirname orig) = Inr (Dir es)"
  then show s: "stat env (os_path_join (os_path_dirname orig) [[]]) = Inr (Dir es)"
    by (simp add: stat_join_empty)
  then have "os_path_exists env (os_path_join (os_path_dirname orig) [[]])"
    by (simp add: os_path_exists_def)
  then have "installed_txt_path env source [] = Inr (Some (os_path_join (os_path_dirname orig) [[]]))"
    using a by (simp add: installed_txt_path_def)
  then show "get_default_txt_path env source [] = Inr (os_path_join (os_path_dirname orig) [[]])"
    by (simp add: get_default_txt_path_def)
next
  assume a: "\<not> in_installed_tier env source [] \<and> os_path_exists env (local_source_dir env source)"
  then have "(case installed_txt_path env source [] of Inl e \<Rightarrow> None | Inr r \<Rightarrow> r) = None"
    by (auto simp: in_installed_tier_iff split: sum.splits)
  then show "get_default_txt_path env source [] = Inr (local_source_dir env source)"
    using a by (simp add: get_default_txt_path_def local_txt_path_empty)
qed

theorem get_default_txt_path_empty_filename_witness:
  "find_spec (installed_env (site_fs hydrogen_text good_registry))
       (''pymkm.data.defaults.'' @ ''geant4_11_3_0'')
     = Inr (Some \<lparr>origin = Some ''/site/pymkm/data/defaults/geant4_11_3_0/__init__.py''\<rparr>)
   \<and> stat (installed_env (site_fs hydrogen_text good_registry))
        (os_path_dirname ''/site/pymkm/data/defaults/geant4_11_3_0/__init__.py'')
     = Inr (Dir [(''__init__.py'', File []), (''carbon.txt'', File carbon_header)])
   \<and> get_default_txt_path (installed_env (site_fs hydrogen_text good_registry)) ''geant4_11_3_0'' []
     = Inr ''/site/pymkm/data/defaults/geant4_11_3_0/''
   \<and> \<not> in_installed_tier (local_env (site_fs hydrogen_text good_registry)) ''geant4_11_3_0'' []
   \<and> os_path_exists (local_env (site_fs hydrogen_text good_registry))
        (local_source_dir (local_env (site_fs hydrogen_text good_registry)) ''geant4_11_3_0'')
   \<and> get_default_txt_path (local_env (site_fs hydrogen_text good_registry)) ''geant4_11_3_0'' []
     = Inr ''/site/pymkm/data/defaults/geant4_11_3_0''"
proof -
  let ?E = "installed_env (site_fs hydrogen_text good_registry)"
  let ?L = "local_env (site_fs hydrogen_text good_registry)"
  let ?o = "''/site/pymkm/data/defaults/geant4_11_3_0/__init__.py''"
  have f: "find_spec ?E (''pymkm.data.defaults.'' @ ''geant4_11_3_0'') = Inr (Some \<lparr>origin = Some ?o\<rparr>)"
    by code_simp
  have o: "origin \<lparr>origin = Some ?o\<rparr> = Some ?o" by simp
  have d: "stat ?E (os_path_dirname ?o)
     = Inr (Dir [(''__init__.py'', File []), (''carbon.txt'', File carbon_header)])"
    by code_simp
  have j: "os_path_join (os_path_dirname ?o) [[]] = ''/site/pymkm/data/defaults/geant4_11_3_0/''"
    by code_simp
  have i: "\<not> in_installed_tier ?L ''geant4_11_3_0'' []" by code_simp
  have l: "os_path_exists ?L (local_source_dir ?L ''geant4_11_3_0'')" by code_simp
  have p: "local_source_dir ?L ''geant4_11_3_0'' = ''/site/pymkm/data/defaults/geant4_11_3_0''"
    by code_simp
  show ?thesis
    using f d i l
      get_default_txt_path_empty_filename [of ?E "''geant4_11_3_0''"]
      get_default_txt_path_empty_filename [of ?L "''geant4_11_3_0''"]
    unfolding j [symmetric] p [symmetric]
    by (metis o)
qed

section \<open>Enumerating the sources\<close>

subsection \<open>The header of a file\<close>






text \<open>A line that contains the separator splits into at least two pieces: both indices
  that \<open>header_entry\<close> reads are in range on the lines it is applied to.\<close>

lemma str_split_length: "c \<in> set s \<Longrightarrow> 2 \<le> length (str_split c s)"
  by (induction s) (auto split: list.splits)

subsection \<open>The two loops\<close>

lemma check_txt_files_ok:
  "check_txt_files env d fs = Inr u \<longleftrightarrow> list_all (well_formed_txt env) fs"
  by (induction fs) (auto simp: well_formed_txt_def Let_def split: sum.splits)

lemma check_txt_files_first:
  assumes "list_all (well_formed_txt env) fpre"
    and "open_read_path env f = Inr text" and "missing_keys text \<noteq> []"
  shows "check_txt_files env d (fpre @ f # fpost)
           = Inl (FileNotFoundError (malformed_message (name d) (missing_keys text)))"
  using assms
  by (induction fpre) (auto simp: well_formed_txt_def Let_def split: sum.splits)

lemma is_dir_iterdir: "is_dir env d \<Longrightarrow> \<exists>es. iterdir env d = Inr es"
  by (auto simp: is_dir_def iterdir_def split: sum.splits node.splits)

lemma scan_subdirectories_step:
  assumes "is_dir env d"
  shows "scan_subdirectories env (d # rest) acc =
     (if \<not> has_marker env d then scan_subdirectories env rest acc
      else (case check_txt_files env d (txt_files env d) of
              Inl e \<Rightarrow> Inl e
            | Inr _ \<Rightarrow> scan_subdirectories env rest (acc @ [name d])))"
  using is_dir_iterdir [OF assms] by (auto simp: has_marker_def txt_files_def)

lemma scan_subdirectories_ok:
  assumes "\<forall>d\<in>set ds. is_dir env d"
  shows "scan_subdirectories env ds acc = Inr xs \<longleftrightarrow>
           (\<forall>d\<in>set ds. has_marker env d \<longrightarrow> valid_source env d)
           \<and> xs = acc @ map name (filter (has_marker env) ds)"
  using assms
proof (induction ds arbitrary: acc)
  case Nil
  then show ?case by auto
next
  case (Cons d ds)
  then have d: "is_dir env d" and ds: "\<forall>d\<in>set ds. is_dir env d" by auto
  show ?case
  proof (cases "has_marker env d")
    case False
    then show ?thesis
      using Cons.IH [OF ds] by (simp add: scan_subdirectories_step [OF d] del: scan_subdirectories.simps)
  next
    case True
    show ?thesis
    proof (cases "valid_source env d")
      case v: True
      then have "check_txt_files env d (txt_files env d) = Inr ()"
        by (simp add: check_txt_files_ok valid_source_def)
      then show ?thesis
        using True v Cons.IH [OF ds, of "acc @ [name d]"]
        by (simp add: scan_subdirectories_step [OF d] del: scan_subdirectories.simps)
    next
      case v: False
      then have "\<exists>e. check_txt_files env d (txt_files env d) = Inl e"
        using check_txt_files_ok [of env d "txt_files env d"]
        by (cases "check_txt_files env d (txt_files env d)") (auto simp: valid_source_def)
      then show ?thesis
        using True v by (auto simp: scan_subdirectories_step [OF d] simp del: scan_subdirectories.simps)
    qed
  qed
qed

lemma scan_subdirectories_first:
  assumes "\<forall>d'\<in>set pre. is_dir env d' \<and> (has_marker env d' \<longrightarrow> valid_source env d')"
    and "is_dir env d" and "has_marker env d"
    and "txt_files env d = fpre @ f # fpost"
    and "list_all (well_formed_txt env) fpre"
    and "open_read_path env f = Inr text" and "missing_keys text \<noteq> []"
  shows "scan_subdirectories env (pre @ d # post) acc
           = Inl (FileNotFoundError (malformed_message (name d) (missing_keys text)))"
  using assms(1)
proof (induction pre arbitrary: acc)
  case Nil
  show ?case
    using check_txt_files_first [OF assms(5,6,7), of d fpost] assms(3,4)
    by (simp add: scan_subdirectories_step [OF assms(2)] del: scan_subdirectories.simps)
next
  case (Cons a pre)
  then have a: "is_dir env a" "has_marker env a \<longrightarrow> valid_source env a"
    and rest: "\<forall>d'\<in>set pre. is_dir env d' \<and> (has_marker env d' \<longrightarrow> valid_source env d')"
    by auto
  show ?case
  proof (cases "has_marker env a")
    case False
    then show ?thesis using Cons.IH [OF rest] by (simp add: scan_subdirectories_step [OF a(1)] del: scan_subdirectories.simps)
  next
    case True
    then have "check_txt_files env a (txt_files env a) = Inr ()"
      using a(2) by (simp add: check_txt_files_ok valid_source_def)
    then show ?thesis
      using True Cons.IH [OF rest] by (simp add: scan_subdirectories_step [OF a(1)] del: scan_subdirectories.simps)
  qed
qed

lemma list_subdirectories_is_dir:
  "list_subdirectories env base = Inr ds \<Longrightarrow> \<forall>d\<in>set ds. is_dir env d"
  by (auto simp: list_subdirectories_def split: sum.splits)

lemma get_available_sources_installed:
  assumes "files env ''pymkm.data.defaults'' = Inr base"
    and "list_subdirectories env base = Inr ds"
  shows "get_available_sources env = scan_subdirectories env ds []"
  using assms by (simp add: get_available_sources_def)

lemma get_available_sources_except_branch:
  assumes "files env ''pymkm.data.defaults'' = Inl e
           \<or> (\<exists>base e. files env ''pymkm.data.defaults'' = Inr base
                 \<and> list_subdirectories env base = Inl e)"
  shows "\<exists>err. get_available_sources env = Inl err"
  using assms
  by (auto simp: get_available_sources_def split: sum.splits option.splits)

lemma get_available_sources_first_malformed:
  assumes "files env ''pymkm.data.defaults'' = Inr base"
    and "list_subdirectories env base = Inr (pre @ d # post)"
    and "\<forall>d'\<in>set pre. has_marker env d' \<longrightarrow> valid_source env d'"
    and "has_marker env d"
    and "txt_files env d = fpre @ f # fpost"
    and "list_all (well_formed_txt env) fpre"
    and "open_read_path env f = Inr text"
    and "missing_keys text \<noteq> []"
  shows "get_available_sources env
           = Inl (FileNotFoundError (malformed_message (name d) (missing_keys text)))"
proof -
  have dirs: "\<forall>x\<in>set (pre @ d # post). is_dir env x"
    using list_subdirectories_is_dir [OF assms(2)] .
  then have "\<forall>d'\<in>set pre. is_dir env d' \<and> (has_marker env d' \<longrightarrow> valid_source env d')"
    and "is_dir env d"
    using assms(3) by auto
  then show ?thesis
    using scan_subdirectories_first [OF _ _ assms(4-8), of pre post "[]"]
    by (simp add: get_available_sources_installed [OF assms(1,2)])
qed

text \<open>
  Whatever the order of the subdirectories: when the installed tier resolves the root,
  every \<^verbatim>\<open>.txt\<close> entry of a marked subdirectory can be read and some marked subdirectory is
  not valid, the enumeration fails with the error that names a marked subdirectory and the
  missing keys of one of its files.
\<close>

theorem get_available_sources_some_malformed:
  assumes base: "files env ''pymkm.data.defaults'' = Inr base"
    and ds: "list_subdirectories env base = Inr ds"
    and readable: "\<forall>d\<in>set ds. has_marker env d \<longrightarrow>
                     (\<forall>f\<in>set (txt_files env d). \<exists>text. open_read_path env f = Inr text)"
    and bad: "\<exists>d\<in>set ds. has_marker env d \<and> \<not> valid_source env d"
  shows "\<exists>d f text. d \<in> set ds \<and> has_marker env d \<and> f \<in> set (txt_files env d)
           \<and> open_read_path env f = Inr text \<and> missing_keys text \<noteq> []
           \<and> get_available_sources env
               = Inl (FileNotFoundError (malformed_message (name d) (missing_keys text)))"
proof -
  from bad obtain pre d post where split: "ds = pre @ d # post"
    and d: "has_marker env d \<and> \<not> valid_source env d"
    and pre: "\<forall>d'\<in>set pre. \<not> (has_marker env d' \<and> \<not> valid_source env d')"
    using split_list_first_prop [of ds "\<lambda>d. has_marker env d \<and> \<not> valid_source env d"] by blast
  from d have "\<exists>f\<in>set (txt_files env d). \<not> well_formed_txt env f"
    by (simp add: valid_source_def list_all_iff)
  then obtain fpre f fpost where fs: "txt_files env d = fpre @ f # fpost"
    and f: "\<not> well_formed_txt env f" and fpre: "\<forall>g\<in>set fpre. \<not> \<not> well_formed_txt env g"
    using split_list_first_prop [of "txt_files env d" "\<lambda>f. \<not> well_formed_txt env f"] by blast
  have "d \<in> set ds" "f \<in> set (txt_files env d)" using split fs by auto
  then obtain content where content: "open_read_path env f = Inr content"
    using readable d by blast
  then have m: "missing_keys content \<noteq> []" using f by (simp add: well_formed_txt_def)
  have "get_available_sources env
      = Inl (FileNotFoundError (malformed_message (name d) (missing_keys content)))"
    using get_available_sources_first_malformed [OF base ds [unfolded split] _ _ fs _ content m] pre d fpre
    by (auto simp: list_all_iff)
  then show ?thesis
    using \<open>d \<in> set ds\<close> \<open>f \<in> set (txt_files env d)\<close> d content m by blast
qed

theorem get_available_sources_some_malformed_witness:
  "\<exists>d f content.
      d \<in> set [Path ''/site/pymkm/data/defaults/geant4_11_3_0'',
                Path ''/site/pymkm/data/defaults/mstar_3_12'',
                Path ''/site/pymkm/data/defaults/fluka_2020_0'']
      \<and> has_marker (installed_env (site_fs hydrogen_text bad_registry)) d
      \<and> f \<in> set (txt_files (installed_env (site_fs hydrogen_text bad_registry)) d)
      \<and> open_read_path (installed_env (site_fs hydrogen_text bad_registry)) f = Inr content
      \<and> missing_keys content \<noteq> []
      \<and> get_available_sources (installed_env (site_fs hydrogen_text bad_registry))
          = Inl (FileNotFoundError (malformed_message (name d) (missing_keys content)))"
proof -
  let ?E = "installed_env (site_fs hydrogen_text bad_registry)"
  let ?g = "Path ''/site/pymkm/data/defaults/geant4_11_3_0''"
  let ?m = "Path ''/site/pymkm/data/defaults/mstar_3_12''"
  let ?f = "Path ''/site/pymkm/data/defaults/fluka_2020_0''"
  have b: "files ?E ''pymkm.data.defaults'' = Inr (Path ''/site/pymkm/data/defaults'')"
    by code_simp
  have l: "list_subdirectories ?E (Path ''/site/pymkm/data/defaults'') = Inr [?g, ?m, ?f]"
    by code_simp
  have r: "list_all (\<lambda>d. list_all (\<lambda>f. \<not> isl (open_read_path ?E f)) (txt_files ?E d)) [?g, ?m, ?f]"
    by code_simp
  have r': "\<forall>d\<in>set [?g, ?m, ?f]. has_marker ?E d \<longrightarrow>
              (\<forall>f\<in>set (txt_files ?E d). \<exists>content. open_read_path ?E f = Inr content)"
  proof (intro ballI impI)
    fix d f assume "d \<in> set [?g, ?m, ?f]" "f \<in> set (txt_files ?E d)"
    then have "\<not> isl (open_read_path ?E f)" using r by (auto simp: list_all_iff)
    then show "\<exists>content. open_read_path ?E f = Inr content"
      by (cases "open_read_path ?E f") auto
  qed
  have m: "has_marker ?E ?m" "\<not> valid_source ?E ?m" by code_simp+
  then have bad: "\<exists>d\<in>set [?g, ?m, ?f]. has_marker ?E d \<and> \<not> valid_source ?E d" by simp
  show ?thesis by (rule get_available_sources_some_malformed [OF b l r' bad])
qed

text \<open>
  Claim C6. \<^verbatim>\<open>get_available_sources\<close> returns a list exactly when the installed tier
  resolves the root and every subdirectory with the marker has only well-formed \<^verbatim>\<open>.txt\<close>
  entries (possibly none); the list is then the names, in iteration order, of the
  subdirectories that bear the marker and are valid. A subdirectory without the marker is
  left out whatever it contains.
\<close>

theorem get_available_sources_exact:
  "get_available_sources env = Inr xs \<longleftrightarrow>
     (\<exists>base ds. files env ''pymkm.data.defaults'' = Inr base
        \<and> list_subdirectories env base = Inr ds
        \<and> (\<forall>d\<in>set ds. has_marker env d \<longrightarrow> valid_source env d)
        \<and> xs = map name (filter (\<lambda>d. has_marker env d \<and> valid_source env d) ds))"
proof
  assume r: "get_available_sources env = Inr xs"
  then obtain base where base: "files env ''pymkm.data.defaults'' = Inr base"
    using get_available_sources_except_branch [of env]
    by (cases "files env ''pymkm.data.defaults''") auto
  with r obtain ds where ds: "list_subdirectories env base = Inr ds"
    using get_available_sources_except_branch [of env]
    by (cases "list_subdirectories env base") auto
  have "scan_subdirectories env ds [] = Inr xs"
    using r by (simp add: get_available_sources_installed [OF base ds])
  then have v: "\<forall>d\<in>set ds. has_marker env d \<longrightarrow> valid_source env d"
    and xs: "xs = map name (filter (has_marker env) ds)"
    using scan_subdirectories_ok [OF list_subdirectories_is_dir [OF ds]] by auto
  have "filter (has_marker env) ds = filter (\<lambda>d. has_marker env d \<and> valid_source env d) ds"
    using v by (auto intro: filter_cong)
  then show "\<exists>base ds. files env ''pymkm.data.defaults'' = Inr base
        \<and> list_subdirectories env base = Inr ds
        \<and> (\<forall>d\<in>set ds. has_marker env d \<longrightarrow> valid_source env d)
        \<and> xs = map name (filter (\<lambda>d. has_marker env d \<and> valid_source env d) ds)"
    using base ds v xs by auto
next
  assume "\<exists>base ds. files env ''pymkm.data.defaults'' = Inr base
        \<and> list_subdirectories env base = Inr ds
        \<and> (\<forall>d\<in>set ds. has_marker env d \<longrightarrow> valid_source env d)
        \<and> xs = map name (filter (\<lambda>d. has_marker env d \<and> valid_source env d) ds)"
  then obtain base ds where base: "files env ''pymkm.data.defaults'' = Inr base"
    and ds: "list_subdirectories env base = Inr ds"
    and v: "\<forall>d\<in>set ds. has_marker env d \<longrightarrow> valid_source env d"
    and xs: "xs = map name (filter (\<lambda>d. has_marker env d \<and> valid_source env d) ds)"
    by blast
  have "filter (has_marker env) ds = filter (\<lambda>d. has_marker env d \<and> valid_source env d) ds"
    using v by (auto intro: filter_cong)
  then show "get_available_sources env = Inr xs"
    using scan_subdirectories_ok [OF list_subdirectories_is_dir [OF ds], of "[]" xs] v xs
    by (simp add: get_available_sources_installed [OF base ds])
qed

theorem get_available_sources_exact_witness:
  "files (installed_env (site_fs hydrogen_text good_registry)) ''pymkm.data.defaults''
     = Inr (Path ''/site/pymkm/data/defaults'')
   \<and> list_subdirectories (installed_env (site_fs hydrogen_text good_registry))
        (Path ''/site/pymkm/data/defaults'')
     = Inr [Path ''/site/pymkm/data/defaults/geant4_11_3_0'', Path ''/site/pymkm/data/defaults/notes'']
   \<and> has_marker (installed_env (site_fs hydrogen_text good_registry))
        (Path ''/site/pymkm/data/defaults/geant4_11_3_0'')
   \<and> valid_source (installed_env (site_fs hydrogen_text good_registry))
        (Path ''/site/pymkm/data/defaults/geant4_11_3_0'')
   \<and> \<not> has_marker (installed_env (site_fs hydrogen_text good_registry))
        (Path ''/site/pymkm/data/defaults/notes'')
   \<and> \<not> valid_source (installed_env (site_fs hydrogen_text good_registry))
        (Path ''/site/pymkm/data/defaults/notes'')
   \<and> get_available_sources (installed_env (site_fs hydrogen_text good_registry))
     = Inr [''geant4_11_3_0'']"
proof -
  let ?E = "installed_env (site_fs hydrogen_text good_registry)"
  let ?g = "Path ''/site/pymkm/data/defaults/geant4_11_3_0''"
  let ?n = "Path ''/site/pymkm/data/defaults/notes''"
  have b: "files ?E ''pymkm.data.defaults'' = Inr (Path ''/site/pymkm/data/defaults'')"
    by code_simp
  have l: "list_subdirectories ?E (Path ''/site/pymkm/data/defaults'') = Inr [?g, ?n]"
    by code_simp
  have g: "has_marker ?E ?g" "valid_source ?E ?g" by code_simp+
  have n: "\<not> has_marker ?E ?n" "\<not> valid_source ?E ?n" by code_simp+
  have nm: "name ?g = ''geant4_11_3_0''" by code_simp
  have v: "\<forall>d\<in>set [?g, ?n]. has_marker ?E d \<longrightarrow> valid_source ?E d"
    using g n by simp
  have e: "[''geant4_11_3_0''] = map name (filter (\<lambda>d. has_marker ?E d \<and> valid_source ?E d) [?g, ?n])"
    using g n nm by simp
  have "get_available_sources ?E = Inr [''geant4_11_3_0'']"
    by (rule get_available_sources_exact [THEN iffD2]) (intro exI conjI; fact b l v e)
  then show ?thesis using b l g n by blast
qed



text \<open>
  Claim C1. The claim asks that, when the installed tier does not resolve the registry
  root and the fallback does, the enumeration goes on and returns the sources. The code
  does not: in the installation below \<^verbatim>\<open>files\<close> raises, \<^verbatim>\<open>find_spec\<close> gives the root, the
  subdirectories are listed and would scan to one valid source, and the function raises
  \<^verbatim>\<open>FileNotFoundError\<close>.
\<close>

theorem get_available_sources_fallback_raises:
  "files (fallback_env (site_fs hydrogen_text good_registry)) ''pymkm.data.defaults''
     = Inl (no_module ''pymkm.data.defaults'')
   \<and> find_spec (fallback_env (site_fs hydrogen_text good_registry)) ''pymkm.data.defaults''
     = Inr (Some \<lparr>origin = Some ''/site/pymkm/data/defaults/__init__.py''\<rparr>)
   \<and> (case list_subdirectories (fallback_env (site_fs hydrogen_text good_registry))
              (parent (Path ''/site/pymkm/data/defaults/__init__.py'')) of
         Inl e \<Rightarrow> False
       | Inr all_subdirectories \<Rightarrow>
           scan_subdirectories (fallback_env (site_fs hydrogen_text good_registry))
             all_subdirectories [] = Inr [''geant4_11_3_0''])
   \<and> get_available_sources (fallback_env (site_fs hydrogen_text good_registry))
     = Inl (FileNotFoundError ''Could not locate default sources.'')"
  by code_simp

section \<open>Listing the files of a source\<close>

lemma name_joinpath [simp]: "name (joinpath p n) = n"
  by (simp add: name_def joinpath_def)

lemma suffix_joinpath [simp]: "suffix (joinpath p n) = name_suffix n"
  by (simp add: suffix_def)


lemma iterdir_entries:
  "iterdir env folder = Inr fs \<longleftrightarrow>
     (\<exists>entries. pstat env folder = Inr (Dir entries) \<and> fs = map (\<lambda>e. joinpath folder (fst e)) entries)"
  by (auto simp: iterdir_def split: sum.splits node.splits)








section \<open>Loading the lookup table\<close>










section \<open>The exception types\<close>










end
